theory Spec2Isabelle
  imports Main
begin

section \<open>CsvStringifyStream (csv/csv_stringify_stream.ts)\<close>

subsection \<open>Data\<close>

text \<open>
  A JavaScript value of static type \<open>unknown\<close>: the transform itself only ever builds
  strings (the column names of the header row); every other value is carried opaquely.
\<close>

datatype 'v unknown = JsString string | JsOther 'v

text \<open>
  One stream item, \<open>Array<unknown>\<close> or \<open>Record<string, unknown>\<close>. A record is an
  association list, since the property order of a JavaScript object is observable.
\<close>

datatype 'v DataItem =
    ArrayItem "'v unknown list"
  | RecordItem "(string \<times> 'v unknown) list"

text \<open>
  What a \<open>catch (error)\<close> clause of the source can receive: a value thrown by
  \<open>stringify\<close>, or the \<open>TypeError\<close> that \<open>controller.enqueue\<close> throws on a stream that
  can no longer take chunks.
\<close>

datatype 'e thrown = Thrown 'e | TypeError

text \<open>\<open>CsvStringifyStreamOptions\<close>: every property is optional (\<open>None\<close> is \<open>undefined\<close>).\<close>

record CsvStringifyStreamOptions =
  o_separator :: "string option"
  o_columns :: "string list option"
  o_crlf :: "bool option"

text \<open>
  The object literals handed to \<open>stringify\<close>: \<open>{ separator, headers: false, crlf }\<close> in
  \<open>start\<close> (no \<open>columns\<close> property, hence \<open>None\<close>) and
  \<open>{ separator, headers: false, columns, crlf }\<close> in \<open>transform\<close>.
\<close>

record StringifyOptions =
  s_separator :: "string option"
  s_headers :: bool
  s_columns :: "string list option"
  s_crlf :: bool

text \<open>
  \<open>stringify\<close> is imported from \<open>./stringify.ts\<close>; the transform is verified for every
  such function: it takes the rows and the options and returns the text or throws.
\<close>

type_synonym ('v, 'e) stringify =
  "'v DataItem list \<Rightarrow> StringifyOptions \<Rightarrow> 'e thrown + string"

text \<open>Which callback enqueued a chunk: \<open>start\<close> (the header) or \<open>transform\<close> (a data chunk).\<close>

datatype origin = Header | Data

text \<open>
  The three bindings that the callbacks close over:
  \<open>const { separator, columns = [], crlf = true } = options ?? {}\<close>.
\<close>

record bindings =
  separator :: "string option"
  columns :: "string list"
  crlf :: bool

text \<open>
  One stream instance: its bindings, and what the callbacks have done to the outside so
  far: the chunks passed to \<open>controller.enqueue\<close> (oldest first, each with the callback
  it came from), the error passed to \<open>controller.error\<close> if the stream has been errored,
  and the calls made to \<open>stringify\<close> (oldest first). The origin of a chunk and the list
  of calls are kept for the statements only: the source stores neither, and no callback
  reads them.
\<close>

record ('v, 'e) csv_stream = bindings +
  chunks :: "(origin \<times> string) list"
  failure :: "'e thrown option"
  calls :: "('v DataItem list \<times> StringifyOptions) list"

subsection \<open>The stream controller\<close>

text \<open>
  \<open>controller.enqueue(chunk)\<close> throws a \<open>TypeError\<close> when the stream has been errored and
  appends the chunk otherwise.
\<close>

definition controller_enqueue ::
  "origin \<Rightarrow> string \<Rightarrow> ('v, 'e) csv_stream \<Rightarrow> 'e thrown + ('v, 'e) csv_stream" where
  "controller_enqueue tag chunk s =
     (if failure s \<noteq> None then Inl TypeError
      else Inr (s\<lparr>chunks := chunks s @ [(tag, chunk)]\<rparr>))"

text \<open>\<open>controller.error(e)\<close> errors the stream; on a stream already errored it does nothing.\<close>

definition controller_error :: "'e thrown \<Rightarrow> ('v, 'e) csv_stream \<Rightarrow> ('v, 'e) csv_stream" where
  "controller_error e s = (if failure s = None then s\<lparr>failure := Some e\<rparr> else s)"

text \<open>A call of \<open>stringify\<close>: the result, and the instance with the call recorded.\<close>

definition call_stringify ::
  "('v, 'e) stringify \<Rightarrow> 'v DataItem list \<Rightarrow> StringifyOptions \<Rightarrow> ('v, 'e) csv_stream
     \<Rightarrow> ('e thrown + string) \<times> ('v, 'e) csv_stream" where
  "call_stringify stringify rows opts s =
     (stringify rows opts, s\<lparr>calls := calls s @ [(rows, opts)]\<rparr>)"

subsection \<open>The constructor and its two callbacks\<close>

text \<open>
  The destructuring of the constructor's argument: a missing options object is \<open>{}\<close>,
  a missing \<open>columns\<close> is \<open>[]\<close>, a missing \<open>crlf\<close> is \<open>true\<close>, and \<open>separator\<close> has no
  default.
\<close>

definition destructure :: "CsvStringifyStreamOptions option \<Rightarrow> bindings" where
  "destructure options =
     (let opts = (case options of
                    None \<Rightarrow> \<lparr>o_separator = None, o_columns = None, o_crlf = None\<rparr>
                  | Some given \<Rightarrow> given)
      in \<lparr>separator = o_separator opts,
          columns = (case o_columns opts of None \<Rightarrow> [] | Some cs \<Rightarrow> cs),
          crlf = (case o_crlf opts of None \<Rightarrow> True | Some b \<Rightarrow> b)\<rparr>)"

text \<open>The instance before any callback has run: nothing enqueued, not errored, no call made.\<close>

definition new_instance :: "CsvStringifyStreamOptions option \<Rightarrow> ('v, 'e) csv_stream" where
  "new_instance options =
     (let b = destructure options
      in \<lparr>separator = separator b, columns = columns b, crlf = crlf b,
          chunks = [], failure = None, calls = []\<rparr>)"

text \<open>
  \<open>start(controller)\<close>: when \<open>columns.length > 0\<close>, enqueue
  \<open>stringify([columns], { separator, headers: false, crlf })\<close>; whatever the \<open>try\<close> block
  throws goes to \<open>controller.error\<close>.
\<close>

definition start :: "('v, 'e) stringify \<Rightarrow> ('v, 'e) csv_stream \<Rightarrow> ('v, 'e) csv_stream" where
  "start stringify s =
     (if 0 < length (columns s) then
        (case call_stringify stringify [ArrayItem (map JsString (columns s))]
                \<lparr>s_separator = separator s, s_headers = False,
                 s_columns = None, s_crlf = crlf s\<rparr> s of
           (Inl error, s1) \<Rightarrow> controller_error error s1
         | (Inr text, s1) \<Rightarrow>
             (case controller_enqueue Header text s1 of
                Inl error \<Rightarrow> controller_error error s1
              | Inr s2 \<Rightarrow> s2))
      else s)"

text \<open>
  \<open>transform(chunk, controller)\<close>: enqueue
  \<open>stringify([chunk], { separator, headers: false, columns, crlf })\<close>; whatever the \<open>try\<close>
  block throws goes to \<open>controller.error\<close>.
\<close>

definition transform ::
  "('v, 'e) stringify \<Rightarrow> 'v DataItem \<Rightarrow> ('v, 'e) csv_stream \<Rightarrow> ('v, 'e) csv_stream" where
  "transform stringify chunk s =
     (case call_stringify stringify [chunk]
             \<lparr>s_separator = separator s, s_headers = False,
              s_columns = Some (columns s), s_crlf = crlf s\<rparr> s of
        (Inl error, s1) \<Rightarrow> controller_error error s1
      | (Inr text, s1) \<Rightarrow>
          (case controller_enqueue Data text s1 of
             Inl error \<Rightarrow> controller_error error s1
           | Inr s2 \<Rightarrow> s2))"

text \<open>
  The constructor passes the two callbacks to \<open>super\<close>, which runs \<open>start\<close> at once, also
  when no item is ever written.
\<close>

definition constructor ::
  "('v, 'e) stringify \<Rightarrow> CsvStringifyStreamOptions option \<Rightarrow> ('v, 'e) csv_stream" where
  "constructor stringify options = start stringify (new_instance options)"

text \<open>
  Writing items to the stream, as \<open>TransformStream\<close> drives the callbacks: \<open>transform\<close>
  runs once for each item, in order, as long as the stream has not been errored; a write
  to an errored stream is rejected without running the callback.
\<close>

fun write_all ::
  "('v, 'e) stringify \<Rightarrow> 'v DataItem list \<Rightarrow> ('v, 'e) csv_stream \<Rightarrow> ('v, 'e) csv_stream" where
  "write_all stringify [] s = s"
| "write_all stringify (chunk # rest) s =
     (if failure s \<noteq> None then s
      else write_all stringify rest (transform stringify chunk s))"

text \<open>\<open>readable.pipeThrough(new CsvStringifyStream(options))\<close> for a source of the items \<open>xs\<close>.\<close>

definition pipeThrough ::
  "('v, 'e) stringify \<Rightarrow> CsvStringifyStreamOptions option \<Rightarrow> 'v DataItem list
     \<Rightarrow> ('v, 'e) csv_stream" where
  "pipeThrough stringify options xs = write_all stringify xs (constructor stringify options)"

text \<open>The header chunks and the texts of the data chunks among the emitted chunks.\<close>

definition header_chunks :: "('v, 'e) csv_stream \<Rightarrow> string list" where
  "header_chunks s = map snd (filter (\<lambda>c. fst c = Header) (chunks s))"

definition data_chunks :: "('v, 'e) csv_stream \<Rightarrow> string list" where
  "data_chunks s = map snd (filter (\<lambda>c. fst c = Data) (chunks s))"

text \<open>
  The data chunk emitted for the input item number \<open>k\<close> (counted from 0), if one has been
  emitted: the data chunks come one for each item, in order, up to the first failure.
\<close>

definition item_chunk :: "('v, 'e) csv_stream \<Rightarrow> nat \<Rightarrow> string option" where
  "item_chunk s k = (if k < length (data_chunks s) then Some (data_chunks s ! k) else None)"

subsection \<open>The arguments of the two calls\<close>

text \<open>
  Names for what the statements below say about the calls of \<open>stringify\<close>: the batch and
  the options of the header call, and the options of the call for an item.
\<close>

definition header_row :: "'a bindings_scheme \<Rightarrow> 'v DataItem list" where
  "header_row b = [ArrayItem (map JsString (columns b))]"

definition header_options :: "'a bindings_scheme \<Rightarrow> StringifyOptions" where
  "header_options b = \<lparr>s_separator = separator b, s_headers = False,
                        s_columns = None, s_crlf = crlf b\<rparr>"

definition item_options :: "'a bindings_scheme \<Rightarrow> StringifyOptions" where
  "item_options b = \<lparr>s_separator = separator b, s_headers = False,
                      s_columns = Some (columns b), s_crlf = crlf b\<rparr>"

text \<open>The texts of the items up to the first one on which \<open>stringify\<close> throws.\<close>

fun encoded ::
  "('v, 'e) stringify \<Rightarrow> StringifyOptions \<Rightarrow> 'v DataItem list \<Rightarrow> string list" where
  "encoded f opts [] = []"
| "encoded f opts (x # xs) =
     (case f [x] opts of Inl e \<Rightarrow> [] | Inr t \<Rightarrow> t # encoded f opts xs)"

subsection \<open>An encoder for the examples\<close>

text \<open>
  Modelled from the spec: \<open>stringify.ts\<close> is not among the sources. The theorems below
  hold for every encoder; this one only serves to run them on the examples of the
  specification (section 8). Values other than strings are carried as their text. The
  cells of a row are joined by the separator (a comma when absent) and closed by CR LF
  or LF; a separator containing a double quote is refused, and so is a keyed record
  when no column is given.
\<close>

definition line_terminator :: "bool \<Rightarrow> string" where
  "line_terminator b = (if b then [CHR 0x0D, CHR 0x0A] else [CHR 0x0A])"

fun join :: "string \<Rightarrow> string list \<Rightarrow> string" where
  "join sep [] = []"
| "join sep [c] = c"
| "join sep (c # d # cs) = c @ sep @ join sep (d # cs)"

fun cell :: "string unknown \<Rightarrow> string" where
  "cell (JsString t) = t"
| "cell (JsOther t) = t"

fun sample_row :: "StringifyOptions \<Rightarrow> string DataItem \<Rightarrow> string thrown + string list" where
  "sample_row opts (ArrayItem vs) = Inr (map cell vs)"
| "sample_row opts (RecordItem kvs) =
     (case s_columns opts of
        None \<Rightarrow> Inl (Thrown ''no columns'')
      | Some cols \<Rightarrow>
          if cols = [] then Inl (Thrown ''no columns'')
          else Inr (map (\<lambda>c. case map_of kvs c of None \<Rightarrow> [] | Some v \<Rightarrow> cell v) cols))"

fun sample_lines ::
  "string \<Rightarrow> StringifyOptions \<Rightarrow> string DataItem list \<Rightarrow> string thrown + string" where
  "sample_lines sep opts [] = Inr []"
| "sample_lines sep opts (r # rs) =
     (case sample_row opts r of
        Inl e \<Rightarrow> Inl e
      | Inr cs \<Rightarrow>
          (case sample_lines sep opts rs of
             Inl e \<Rightarrow> Inl e
           | Inr t \<Rightarrow> Inr (join sep cs @ line_terminator (s_crlf opts) @ t)))"

definition sample_stringify :: "(string, string) stringify" where
  "sample_stringify rows opts =
     (let sep = (case s_separator opts of None \<Rightarrow> '','' | Some c \<Rightarrow> c)
      in if CHR 0x22 \<in> set sep then Inl (Thrown ''bad separator'')
         else sample_lines sep opts rows)"

subsection \<open>The examples of the specification\<close>

definition example_options :: "CsvStringifyStreamOptions option" where
  "example_options =
     Some \<lparr>o_separator = None, o_columns = Some [''id'', ''name''], o_crlf = Some True\<rparr>"

definition example_records :: "string DataItem list" where
  "example_records =
     [RecordItem [(''id'', JsOther ''1''), (''name'', JsString ''one'')],
      RecordItem [(''id'', JsOther ''2''), (''name'', JsString ''two'')]]"

definition positional_options :: "CsvStringifyStreamOptions option" where
  "positional_options =
     Some \<lparr>o_separator = None, o_columns = Some [], o_crlf = Some False\<rparr>"

definition example_arrays :: "string DataItem list" where
  "example_arrays =
     [ArrayItem [JsOther ''1'', JsString ''one''],
      ArrayItem [JsOther ''2'', JsString ''two'']]"

definition semicolon_options :: "CsvStringifyStreamOptions option" where
  "semicolon_options =
     Some \<lparr>o_separator = Some '';'', o_columns = Some [''a'', ''b''], o_crlf = None\<rparr>"

definition semicolon_records :: "string DataItem list" where
  "semicolon_records = [RecordItem [(''a'', JsOther ''1''), (''b'', JsOther ''2'')]]"

text \<open>A separator that the encoder refuses, so that the header call throws.\<close>

definition quote_options :: "CsvStringifyStreamOptions option" where
  "quote_options =
     Some \<lparr>o_separator = Some [CHR 0x22], o_columns = Some [''id''], o_crlf = None\<rparr>"

definition three_arrays :: "string DataItem list" where
  "three_arrays =
     [ArrayItem [JsOther ''1'', JsString ''one''],
      ArrayItem [JsOther ''2'', JsString ''two''],
      ArrayItem [JsOther ''3'', JsString ''three'']]"

text \<open>Positional rows with a keyed record in second place: without columns it is refused.\<close>

definition mixed_items :: "string DataItem list" where
  "mixed_items =
     [ArrayItem [JsOther ''1'', JsString ''one''],
      RecordItem [(''id'', JsOther ''2''), (''name'', JsString ''two'')],
      ArrayItem [JsOther ''3'', JsString ''three'']]"

section \<open>Auxiliary facts\<close>

subsection \<open>One callback at a time\<close>

lemma start_skips: "columns s = [] \<Longrightarrow> start f s = s"
  by (simp add: start_def)

lemma start_returns:
  "failure s = None \<Longrightarrow> columns s \<noteq> [] \<Longrightarrow> f (header_row s) (header_options s) = Inr t \<Longrightarrow>
   start f s = s\<lparr>chunks := chunks s @ [(Header, t)],
                  calls := calls s @ [(header_row s, header_options s)]\<rparr>"
  by (simp add: start_def call_stringify_def controller_enqueue_def header_row_def
      header_options_def)

lemma start_throws:
  "failure s = None \<Longrightarrow> columns s \<noteq> [] \<Longrightarrow> f (header_row s) (header_options s) = Inl e \<Longrightarrow>
   start f s = s\<lparr>failure := Some e,
                  calls := calls s @ [(header_row s, header_options s)]\<rparr>"
  by (simp add: start_def call_stringify_def controller_error_def header_row_def
      header_options_def)

lemma start_frame [simp]:
  "separator (start f s) = separator s"
  "columns (start f s) = columns s"
  "crlf (start f s) = crlf s"
  by (auto simp: start_def call_stringify_def controller_error_def controller_enqueue_def
      split: sum.splits)

lemma transform_returns:
  "failure s = None \<Longrightarrow> f [x] (item_options s) = Inr t \<Longrightarrow>
   transform f x s = s\<lparr>chunks := chunks s @ [(Data, t)],
                        calls := calls s @ [([x], item_options s)]\<rparr>"
  by (simp add: transform_def call_stringify_def controller_enqueue_def item_options_def)

lemma transform_throws:
  "failure s = None \<Longrightarrow> f [x] (item_options s) = Inl e \<Longrightarrow>
   transform f x s = s\<lparr>failure := Some e,
                        calls := calls s @ [([x], item_options s)]\<rparr>"
  by (simp add: transform_def call_stringify_def controller_error_def item_options_def)

lemma transform_frame [simp]:
  "separator (transform f x s) = separator s"
  "columns (transform f x s) = columns s"
  "crlf (transform f x s) = crlf s"
  by (auto simp: transform_def call_stringify_def controller_error_def controller_enqueue_def
      split: sum.splits)

lemma options_of_update [simp]:
  "item_options (s\<lparr>chunks := cs\<rparr>) = item_options s"
  "item_options (s\<lparr>failure := fl\<rparr>) = item_options s"
  "item_options (s\<lparr>calls := ks\<rparr>) = item_options s"
  "header_options (s\<lparr>chunks := cs\<rparr>) = header_options s"
  "header_options (s\<lparr>failure := fl\<rparr>) = header_options s"
  "header_options (s\<lparr>calls := ks\<rparr>) = header_options s"
  by (simp_all add: item_options_def header_options_def)

lemma options_of_new_instance [simp]:
  "item_options (new_instance options) = item_options (destructure options)"
  "header_options (new_instance options) = header_options (destructure options)"
  "header_row (new_instance options) = header_row (destructure options)"
  "separator (new_instance options) = separator (destructure options)"
  "columns (new_instance options) = columns (destructure options)"
  "crlf (new_instance options) = crlf (destructure options)"
  "chunks (new_instance options) = []"
  "failure (new_instance options) = None"
  "calls (new_instance options) = []"
  by (simp_all add: new_instance_def item_options_def header_options_def header_row_def Let_def)

lemma options_of_start [simp]:
  "item_options (start f s) = item_options s"
  "header_options (start f s) = header_options s"
  by (simp_all add: item_options_def header_options_def)

subsection \<open>The whole input\<close>

lemma write_all_failed: "failure s \<noteq> None \<Longrightarrow> write_all f xs s = s"
  by (cases xs) auto

lemma write_all_frame [simp]:
  "separator (write_all f xs s) = separator s"
  "columns (write_all f xs s) = columns s"
  "crlf (write_all f xs s) = crlf s"
  by (induction xs arbitrary: s) auto

lemma write_all_chunks:
  "failure s = None \<Longrightarrow>
   chunks (write_all f xs s) = chunks s @ map (Pair Data) (encoded f (item_options s) xs)"
proof (induction xs arbitrary: s)
  case Nil
  then show ?case by simp
next
  case (Cons x xs)
  show ?case
  proof (cases "f [x] (item_options s)")
    case (Inl e)
    with Cons.prems show ?thesis
      by (simp add: transform_throws write_all_failed)
  next
    case (Inr t)
    with Cons.prems have step:
      "transform f x s = s\<lparr>chunks := chunks s @ [(Data, t)],
                            calls := calls s @ [([x], item_options s)]\<rparr>"
      by (rule transform_returns)
    then have "failure (transform f x s) = None"
      using Cons.prems by simp
    from Cons.IH [OF this] have
      "chunks (write_all f xs (transform f x s)) =
         chunks (transform f x s) @ map (Pair Data) (encoded f (item_options s) xs)"
      by (simp add: step)
    with Inr Cons.prems show ?thesis
      by (simp add: step)
  qed
qed

lemma write_all_calls:
  "failure s = None \<Longrightarrow>
   calls (write_all f xs s) =
     calls s @ map (\<lambda>x. ([x], item_options s))
                 (take (Suc (length (encoded f (item_options s) xs))) xs)"
proof (induction xs arbitrary: s)
  case Nil
  then show ?case by simp
next
  case (Cons x xs)
  show ?case
  proof (cases "f [x] (item_options s)")
    case (Inl e)
    with Cons.prems show ?thesis
      by (simp add: transform_throws write_all_failed)
  next
    case (Inr t)
    with Cons.prems have step:
      "transform f x s = s\<lparr>chunks := chunks s @ [(Data, t)],
                            calls := calls s @ [([x], item_options s)]\<rparr>"
      by (rule transform_returns)
    then have "failure (transform f x s) = None"
      using Cons.prems by simp
    from Cons.IH [OF this] have
      "calls (write_all f xs (transform f x s)) =
         calls (transform f x s) @ map (\<lambda>x. ([x], item_options s))
                 (take (Suc (length (encoded f (item_options s) xs))) xs)"
      by (simp add: step)
    with Inr Cons.prems show ?thesis
      by (simp add: step)
  qed
qed

lemma write_all_failure:
  "failure s = None \<Longrightarrow>
   failure (write_all f xs s) =
     (if length (encoded f (item_options s) xs) < length xs
      then (case f [xs ! length (encoded f (item_options s) xs)] (item_options s) of
              Inl e \<Rightarrow> Some e | Inr t \<Rightarrow> None)
      else None)"
proof (induction xs arbitrary: s)
  case Nil
  then show ?case by simp
next
  case (Cons x xs)
  show ?case
  proof (cases "f [x] (item_options s)")
    case (Inl e)
    with Cons.prems show ?thesis
      by (simp add: transform_throws write_all_failed)
  next
    case (Inr t)
    with Cons.prems have step:
      "transform f x s = s\<lparr>chunks := chunks s @ [(Data, t)],
                            calls := calls s @ [([x], item_options s)]\<rparr>"
      by (rule transform_returns)
    then have "failure (transform f x s) = None"
      using Cons.prems by simp
    from Cons.IH [OF this] have
      "failure (write_all f xs (transform f x s)) =
         (if length (encoded f (item_options s) xs) < length xs
          then (case f [xs ! length (encoded f (item_options s) xs)] (item_options s) of
                  Inl e \<Rightarrow> Some e | Inr t \<Rightarrow> None)
          else None)"
      by (simp add: step)
    with Inr Cons.prems show ?thesis
      by (simp add: step)
  qed
qed

lemma encoded_length: "length (encoded f opts xs) \<le> length xs"
  by (induction xs) (auto split: sum.splits)

lemma encoded_nth:
  "k < length (encoded f opts xs) \<Longrightarrow> f [xs ! k] opts = Inr (encoded f opts xs ! k)"
proof (induction xs arbitrary: k)
  case Nil
  then show ?case by simp
next
  case (Cons x xs)
  then show ?case by (cases k) (auto split: sum.splits)
qed

lemma encoded_all:
  "\<forall>x\<in>set xs. \<exists>t. f [x] opts = Inr t \<Longrightarrow> length (encoded f opts xs) = length xs"
  by (induction xs) (auto split: sum.splits)

lemma encoded_stops:
  "length (encoded f opts xs) < length xs \<Longrightarrow>
   \<exists>e. f [xs ! length (encoded f opts xs)] opts = Inl e"
  by (induction xs) (auto split: sum.splits)

subsection \<open>Construction, then the whole input\<close>

lemmas run_defs =
  pipeThrough_def constructor_def start_def transform_def new_instance_def destructure_def
  call_stringify_def controller_enqueue_def controller_error_def
  header_row_def header_options_def item_options_def header_chunks_def data_chunks_def
  item_chunk_def
  sample_stringify_def line_terminator_def

lemmas example_defs =
  example_options_def example_records_def positional_options_def example_arrays_def
  semicolon_options_def semicolon_records_def quote_options_def three_arrays_def
  mixed_items_def

lemma constructor_no_columns:
  "columns (destructure options) = [] \<Longrightarrow> constructor f options = new_instance options"
  by (simp add: constructor_def start_skips)

lemma constructor_returns:
  fixes f :: "('a, 'b) stringify"
  assumes "columns (destructure options) \<noteq> []"
    and "f (header_row (destructure options)) (header_options (destructure options)) = Inr t"
  shows "constructor f options =
           (new_instance options)\<lparr>chunks := [(Header, t)],
              calls := [(header_row (destructure options), header_options (destructure options))]\<rparr>"
proof -
  have a: "failure (new_instance options :: ('a, 'b) csv_stream) = None"
    by simp
  have b: "columns (new_instance options :: ('a, 'b) csv_stream) \<noteq> []"
    using assms by simp
  have c: "f (header_row (new_instance options :: ('a, 'b) csv_stream))
             (header_options (new_instance options :: ('a, 'b) csv_stream)) = Inr t"
    using assms by simp
  from start_returns [where s = "new_instance options :: ('a, 'b) csv_stream" and f = f and t = t, OF a b c] show ?thesis
    by (simp add: constructor_def)
qed

lemma constructor_throws:
  fixes f :: "('a, 'b) stringify"
  assumes "columns (destructure options) \<noteq> []"
    and "f (header_row (destructure options)) (header_options (destructure options)) = Inl e"
  shows "constructor f options =
           (new_instance options)\<lparr>failure := Some e,
              calls := [(header_row (destructure options), header_options (destructure options))]\<rparr>"
proof -
  have a: "failure (new_instance options :: ('a, 'b) csv_stream) = None"
    by simp
  have b: "columns (new_instance options :: ('a, 'b) csv_stream) \<noteq> []"
    using assms by simp
  have c: "f (header_row (new_instance options :: ('a, 'b) csv_stream))
             (header_options (new_instance options :: ('a, 'b) csv_stream)) = Inl e"
    using assms by simp
  from start_throws [where s = "new_instance options :: ('a, 'b) csv_stream" and f = f and e = e, OF a b c] show ?thesis
    by (simp add: constructor_def)
qed

lemma pipe_chunks:
  "chunks (pipeThrough f options xs) =
     (if columns (destructure options) = []
      then map (Pair Data) (encoded f (item_options (destructure options)) xs)
      else case f (header_row (destructure options)) (header_options (destructure options)) of
             Inl e \<Rightarrow> []
           | Inr t \<Rightarrow> (Header, t) # map (Pair Data) (encoded f (item_options (destructure options)) xs))"
proof (cases "columns (destructure options) = []")
  case True
  then show ?thesis
    by (simp add: pipeThrough_def constructor_no_columns write_all_chunks)
next
  case False
  show ?thesis
  proof (cases "f (header_row (destructure options)) (header_options (destructure options))")
    case (Inl e)
    with False show ?thesis
      by (simp add: pipeThrough_def constructor_throws write_all_failed)
  next
    case (Inr t)
    with False show ?thesis
      by (simp add: pipeThrough_def constructor_returns write_all_chunks)
  qed
qed

lemma pipe_calls:
  "calls (pipeThrough f options xs) =
     (if columns (destructure options) = []
      then map (\<lambda>x. ([x], item_options (destructure options)))
             (take (Suc (length (encoded f (item_options (destructure options)) xs))) xs)
      else case f (header_row (destructure options)) (header_options (destructure options)) of
             Inl e \<Rightarrow> [(header_row (destructure options), header_options (destructure options))]
           | Inr t \<Rightarrow> (header_row (destructure options), header_options (destructure options)) #
               map (\<lambda>x. ([x], item_options (destructure options)))
                 (take (Suc (length (encoded f (item_options (destructure options)) xs))) xs))"
proof (cases "columns (destructure options) = []")
  case True
  then show ?thesis
    by (simp add: pipeThrough_def constructor_no_columns write_all_calls)
next
  case False
  show ?thesis
  proof (cases "f (header_row (destructure options)) (header_options (destructure options))")
    case (Inl e)
    with False show ?thesis
      by (simp add: pipeThrough_def constructor_throws write_all_failed)
  next
    case (Inr t)
    with False show ?thesis
      by (simp add: pipeThrough_def constructor_returns write_all_calls)
  qed
qed

lemma pipe_failure:
  "failure (pipeThrough f options xs) =
     (if columns (destructure options) \<noteq> [] \<and>
         (\<exists>e. f (header_row (destructure options)) (header_options (destructure options)) = Inl e)
      then (case f (header_row (destructure options)) (header_options (destructure options)) of
              Inl e \<Rightarrow> Some e | Inr t \<Rightarrow> None)
      else if length (encoded f (item_options (destructure options)) xs) < length xs
      then (case f [xs ! length (encoded f (item_options (destructure options)) xs)]
                   (item_options (destructure options)) of
              Inl e \<Rightarrow> Some e | Inr t \<Rightarrow> None)
      else None)"
proof (cases "columns (destructure options) = []")
  case True
  then show ?thesis
    by (simp add: pipeThrough_def constructor_no_columns write_all_failure)
next
  case False
  show ?thesis
  proof (cases "f (header_row (destructure options)) (header_options (destructure options))")
    case (Inl e)
    with False show ?thesis
      by (simp add: pipeThrough_def constructor_throws write_all_failed)
  next
    case (Inr t)
    with False show ?thesis
      by (simp add: pipeThrough_def constructor_returns write_all_failure)
  qed
qed

lemma pipe_bindings [simp]:
  "separator (pipeThrough f options xs) = separator (destructure options)"
  "columns (pipeThrough f options xs) = columns (destructure options)"
  "crlf (pipeThrough f options xs) = crlf (destructure options)"
  by (simp_all add: pipeThrough_def constructor_def)

lemma filter_tagged [simp]:
  "filter (\<lambda>c. fst c = Header) (map (Pair Data) ts) = []"
  "filter (\<lambda>c. fst c = Data) (map (Pair Data) ts) = map (Pair Data) ts"
  by (induction ts) auto

lemma pipe_header_chunks:
  "header_chunks (pipeThrough f options xs) =
     (if columns (destructure options) = [] then []
      else case f (header_row (destructure options)) (header_options (destructure options)) of
             Inl e \<Rightarrow> [] | Inr t \<Rightarrow> [t])"
  by (simp add: header_chunks_def pipe_chunks split: sum.splits)

lemma pipe_data_chunks:
  "data_chunks (pipeThrough f options xs) =
     (if columns (destructure options) = []
      then encoded f (item_options (destructure options)) xs
      else case f (header_row (destructure options)) (header_options (destructure options)) of
             Inl e \<Rightarrow> []
           | Inr t \<Rightarrow> encoded f (item_options (destructure options)) xs)"
  by (simp add: data_chunks_def pipe_chunks comp_def split: sum.splits)


lemma encoded_reaches:
  "k \<le> length xs \<Longrightarrow> \<forall>j<k. \<exists>t. f [xs ! j] opts = Inr t \<Longrightarrow> k \<le> length (encoded f opts xs)"
proof (induction xs arbitrary: k)
  case Nil
  then show ?case by simp
next
  case (Cons x xs)
  show ?case
  proof (cases k)
    case 0
    then show ?thesis by simp
  next
    case (Suc n)
    with Cons.prems obtain t where t: "f [x] opts = Inr t"
      by fastforce
    have "\<forall>j<n. \<exists>t. f [xs ! j] opts = Inr t"
    proof (intro allI impI)
      fix j assume "j < n"
      then have "Suc j < k" using Suc by simp
      with Cons.prems(2) have "\<exists>t. f [(x # xs) ! Suc j] opts = Inr t"
        by blast
      then show "\<exists>t. f [xs ! j] opts = Inr t" by simp
    qed
    moreover have "n \<le> length xs" using Cons.prems(1) Suc by simp
    ultimately have "n \<le> length (encoded f opts xs)"
      by (rule Cons.IH [rotated])
    with t Suc show ?thesis by simp
  qed
qed

lemma encoded_take:
  "k \<le> length (encoded f opts xs) \<Longrightarrow> encoded f opts (take k xs) = take k (encoded f opts xs)"
proof (induction xs arbitrary: k)
  case Nil
  then show ?case by simp
next
  case (Cons x xs)
  then show ?case
    by (cases k) (auto split: sum.splits)
qed

lemma encoded_first_throw:
  assumes "0 < k" and "k \<le> length xs"
    and "\<forall>j<k - 1. \<exists>t. f [xs ! j] opts = Inr t"
    and "f [xs ! (k - 1)] opts = Inl e"
  shows "length (encoded f opts xs) = k - 1"
proof -
  have "k - 1 \<le> length (encoded f opts xs)"
    using assms by (intro encoded_reaches) simp_all
  moreover have "\<not> k - 1 < length (encoded f opts xs)"
  proof
    assume "k - 1 < length (encoded f opts xs)"
    then have "f [xs ! (k - 1)] opts = Inr (encoded f opts xs ! (k - 1))"
      by (rule encoded_nth)
    with assms(4) show False by simp
  qed
  ultimately show ?thesis by simp
qed

lemma data_chunk_nth:
  assumes "k < length (data_chunks (pipeThrough f options xs))"
  shows "k < length xs \<and>
         f [xs ! k] (item_options (destructure options)) =
           Inr (data_chunks (pipeThrough f options xs) ! k)"
proof -
  from assms have eq:
    "data_chunks (pipeThrough f options xs) = encoded f (item_options (destructure options)) xs"
    by (auto simp: pipe_data_chunks split: if_splits sum.splits)
  with assms have k: "k < length (encoded f (item_options (destructure options)) xs)"
    by simp
  moreover have "length (encoded f (item_options (destructure options)) xs) \<le> length xs"
    by (rule encoded_length)
  ultimately have "k < length xs" by simp
  with encoded_nth [OF k] eq show ?thesis by simp
qed

lemma pipe_same_bindings:
  "destructure options = destructure options' \<Longrightarrow>
   pipeThrough f options xs = pipeThrough f options' xs"
  by (simp add: pipeThrough_def constructor_def new_instance_def)

lemma pipe_call_cases:
  assumes "c \<in> set (calls (pipeThrough f options xs))"
  shows "(columns (destructure options) \<noteq> [] \<and>
          c = (header_row (destructure options), header_options (destructure options)))
         \<or> (\<exists>x\<in>set xs. c = ([x], item_options (destructure options)))"
proof -
  have "set (take n xs) \<subseteq> set xs" for n
    by (rule set_take_subset)
  with assms show ?thesis
    by (auto simp: pipe_calls split: if_splits sum.splits)
qed

lemma transform_chunks:
  "failure s = None \<Longrightarrow>
   chunks (transform f x s) =
     chunks s @ (case f [x] (item_options s) of Inl e \<Rightarrow> [] | Inr t \<Rightarrow> [(Data, t)])"
  by (cases "f [x] (item_options s)") (simp_all add: transform_returns transform_throws)

section \<open>The properties of the specification\<close>

subsection \<open>The header chunk\<close>

text \<open>
  C1 (as amended). Over the whole life of an instance the emitted chunks are the header
  chunks followed by the data chunks, of which header chunks there is at most one: when
  there is a header chunk it is the first chunk and no later chunk is a header. A header
  chunk is produced if and only if \<open>columns\<close> is non-empty and the header call of the
  encoder returns a text.
\<close>

theorem header_chunk_once:
  "chunks (pipeThrough f options xs) =
     map (Pair Header) (header_chunks (pipeThrough f options xs)) @
     map (Pair Data) (data_chunks (pipeThrough f options xs))
   \<and> length (header_chunks (pipeThrough f options xs)) \<le> 1
   \<and> (header_chunks (pipeThrough f options xs) \<noteq> [] \<longleftrightarrow>
        columns (destructure options) \<noteq> [] \<and>
        (\<exists>t. f (header_row (destructure options)) (header_options (destructure options)) = Inr t))"
  by (simp add: pipe_header_chunks pipe_data_chunks pipe_chunks split: sum.splits)

theorem header_chunk_once_witness:
  "header_chunks (pipeThrough sample_stringify example_options example_records) \<noteq> []
   \<and> length (header_chunks (pipeThrough sample_stringify example_options example_records)) \<le> 1
   \<and> chunks (pipeThrough sample_stringify example_options example_records) =
       [(Header, ''id,name'' @ [CHR 0x0D, CHR 0x0A]),
        (Data, ''1,one'' @ [CHR 0x0D, CHR 0x0A]),
        (Data, ''2,two'' @ [CHR 0x0D, CHR 0x0A])]"
proof -
  have hdr: "sample_stringify (header_row (destructure example_options))
        (header_options (destructure example_options)) = Inr (''id,name'' @ [CHR 0x0D, CHR 0x0A])"
    by (simp add: run_defs example_defs)
  have cols: "columns (destructure example_options) \<noteq> []"
    by (simp add: run_defs example_defs)
  have run: "chunks (pipeThrough sample_stringify example_options example_records) =
       [(Header, ''id,name'' @ [CHR 0x0D, CHR 0x0A]),
        (Data, ''1,one'' @ [CHR 0x0D, CHR 0x0A]),
        (Data, ''2,two'' @ [CHR 0x0D, CHR 0x0A])]"
    by (simp add: run_defs example_defs)
  from header_chunk_once [of sample_stringify example_options example_records] hdr cols run
  show ?thesis by simp
qed

text \<open>
  C1 as stated fails where the header call throws: \<open>columns\<close> is non-empty and yet no
  header chunk is produced.
\<close>

theorem header_missing_counterexample:
  "\<not> (header_chunks (pipeThrough sample_stringify quote_options []) \<noteq> [] \<longleftrightarrow>
       columns (destructure quote_options) \<noteq> [])"
  by (simp add: run_defs example_defs)

subsection \<open>How many chunks\<close>

text \<open>
  C2. When the encoder fails on no call that is made (the header call, if \<open>columns\<close> is
  non-empty, and the call for each of the N items), the transform emits N + 1 chunks if
  \<open>columns\<close> is non-empty, also for N = 0, and N chunks if \<open>columns\<close> is empty; the stream
  is not errored.
\<close>

theorem chunk_count:
  assumes "columns (destructure options) \<noteq> [] \<longrightarrow>
             (\<exists>t. f (header_row (destructure options)) (header_options (destructure options)) = Inr t)"
    and "\<forall>x\<in>set xs. \<exists>t. f [x] (item_options (destructure options)) = Inr t"
  shows "length (chunks (pipeThrough f options xs)) =
           (if columns (destructure options) \<noteq> [] then length xs + 1 else length xs)
         \<and> failure (pipeThrough f options xs) = None"
proof -
  from assms(2) have "length (encoded f (item_options (destructure options)) xs) = length xs"
    by (rule encoded_all)
  with assms(1) show ?thesis
    by (auto simp: pipe_chunks pipe_failure)
qed

theorem chunk_count_witness:
  "length (chunks (pipeThrough sample_stringify semicolon_options semicolon_records)) = 2
   \<and> chunks (pipeThrough sample_stringify semicolon_options semicolon_records) =
       [(Header, ''a;b'' @ [CHR 0x0D, CHR 0x0A]), (Data, ''1;2'' @ [CHR 0x0D, CHR 0x0A])]
   \<and> failure (pipeThrough sample_stringify semicolon_options semicolon_records) = None"
proof -
  have hdr: "columns (destructure semicolon_options) \<noteq> [] \<longrightarrow>
      (\<exists>t. sample_stringify (header_row (destructure semicolon_options))
             (header_options (destructure semicolon_options)) = Inr t)"
    by (simp add: run_defs example_defs)
  have items: "\<forall>x\<in>set semicolon_records.
      \<exists>t. sample_stringify [x] (item_options (destructure semicolon_options)) = Inr t"
    by (simp add: run_defs example_defs)
  have run: "chunks (pipeThrough sample_stringify semicolon_options semicolon_records) =
       [(Header, ''a;b'' @ [CHR 0x0D, CHR 0x0A]), (Data, ''1;2'' @ [CHR 0x0D, CHR 0x0A])]"
    by (simp add: run_defs example_defs)
  have cols: "columns (destructure semicolon_options) \<noteq> []"
    by (simp add: run_defs example_defs)
  from chunk_count [OF hdr items] run cols show ?thesis
    by (simp add: semicolon_records_def)
qed

subsection \<open>The two calls of the encoder\<close>

text \<open>
  C3. When \<open>columns\<close> is non-empty, construction calls the encoder exactly once, with the
  one-row batch \<open>[columns]\<close> and the options \<open>{ separator, headers: false, crlf }\<close>, no
  \<open>columns\<close> among them; the text the encoder returns is the chunk emitted at start and
  the first chunk of the whole output.
\<close>

theorem header_call_at_start:
  assumes "columns (destructure options) \<noteq> []"
  shows "calls (constructor f options) =
           [([ArrayItem (map JsString (columns (destructure options)))],
             \<lparr>s_separator = separator (destructure options), s_headers = False,
              s_columns = None, s_crlf = crlf (destructure options)\<rparr>)]
         \<and> (\<forall>t. f [ArrayItem (map JsString (columns (destructure options)))]
                  \<lparr>s_separator = separator (destructure options), s_headers = False,
                   s_columns = None, s_crlf = crlf (destructure options)\<rparr> = Inr t \<longrightarrow>
                chunks (constructor f options) = [(Header, t)] \<and>
                take 1 (chunks (pipeThrough f options xs)) = [(Header, t)])"
proof (cases "f (header_row (destructure options)) (header_options (destructure options))")
  case (Inl e)
  from constructor_throws [where f = f and e = e, OF assms Inl] Inl show ?thesis
    by (simp add: header_row_def header_options_def)
next
  case (Inr t)
  from constructor_returns [where f = f and t = t, OF assms Inr] Inr assms show ?thesis
    by (simp add: pipe_chunks) (simp add: header_row_def header_options_def)
qed

theorem header_call_at_start_witness:
  "calls (constructor sample_stringify example_options) =
     [([ArrayItem [JsString ''id'', JsString ''name'']],
       \<lparr>s_separator = None, s_headers = False, s_columns = None, s_crlf = True\<rparr>)]
   \<and> chunks (constructor sample_stringify example_options) =
       [(Header, ''id,name'' @ [CHR 0x0D, CHR 0x0A])]
   \<and> take 1 (chunks (pipeThrough sample_stringify example_options example_records)) =
       [(Header, ''id,name'' @ [CHR 0x0D, CHR 0x0A])]"
proof -
  have cols: "columns (destructure example_options) \<noteq> []"
    by (simp add: run_defs example_defs)
  have b: "columns (destructure example_options) = [''id'', ''name'']"
    "separator (destructure example_options) = None"
    "crlf (destructure example_options) = True"
    by (simp_all add: run_defs example_defs)
  have hdr: "sample_stringify [ArrayItem [JsString ''id'', JsString ''name'']]
      \<lparr>s_separator = None, s_headers = False, s_columns = None, s_crlf = True\<rparr> =
      Inr (''id,name'' @ [CHR 0x0D, CHR 0x0A])"
    by (simp add: run_defs)
  from header_call_at_start [OF cols, of sample_stringify example_records] hdr
  show ?thesis by (simp add: b)
qed

text \<open>
  C4. Whatever the state of the stream, \<open>transform\<close> calls the encoder once, with the
  one-row batch \<open>[chunk]\<close> and the options \<open>{ separator, headers: false, columns, crlf }\<close>,
  \<open>columns\<close> being passed also when it is empty; on a stream that is not errored the
  text the encoder returns is enqueued as one chunk. Over a whole input: the item at
  index \<open>k\<close> is reached when the header call (if any) and the calls for the items before
  it returned, and then the call number \<open>k\<close> after the header call is the call for that
  item, and the chunk number \<open>k\<close> after the header chunk is the text returned for it.
\<close>

theorem item_call_in_transform:
  "calls (transform f x s) =
     calls s @ [([x], \<lparr>s_separator = separator s, s_headers = False,
                      s_columns = Some (columns s), s_crlf = crlf s\<rparr>)]
   \<and> (\<forall>t. failure s = None \<and>
          f [x] \<lparr>s_separator = separator s, s_headers = False,
                 s_columns = Some (columns s), s_crlf = crlf s\<rparr> = Inr t \<longrightarrow>
          chunks (transform f x s) = chunks s @ [(Data, t)] \<and> failure (transform f x s) = None)
   \<and> ((columns (destructure options) = [] \<or>
        (\<exists>h. f (header_row (destructure options)) (header_options (destructure options)) = Inr h)) \<and>
       k < length xs \<and>
       (\<forall>j<k. \<exists>t. f [xs ! j] (item_options (destructure options)) = Inr t) \<longrightarrow>
       calls (pipeThrough f options xs) !
         ((if columns (destructure options) = [] then 0 else 1) + k) =
         ([xs ! k], \<lparr>s_separator = separator (destructure options), s_headers = False,
                     s_columns = Some (columns (destructure options)),
                     s_crlf = crlf (destructure options)\<rparr>)
       \<and> (\<forall>t. f [xs ! k] \<lparr>s_separator = separator (destructure options), s_headers = False,
                     s_columns = Some (columns (destructure options)),
                     s_crlf = crlf (destructure options)\<rparr> = Inr t \<longrightarrow>
             chunks (pipeThrough f options xs) !
               ((if columns (destructure options) = [] then 0 else 1) + k) = (Data, t)))"
proof (intro conjI allI impI)
  show "calls (transform f x s) =
     calls s @ [([x], \<lparr>s_separator = separator s, s_headers = False,
                      s_columns = Some (columns s), s_crlf = crlf s\<rparr>)]"
    by (auto simp: transform_def call_stringify_def controller_error_def
        controller_enqueue_def split: sum.splits)
next
  fix t
  assume "failure s = None \<and>
          f [x] \<lparr>s_separator = separator s, s_headers = False,
                 s_columns = Some (columns s), s_crlf = crlf s\<rparr> = Inr t"
  then have "transform f x s = s\<lparr>chunks := chunks s @ [(Data, t)],
                        calls := calls s @ [([x], item_options s)]\<rparr>" and "failure s = None"
    by (simp_all add: transform_returns item_options_def)
  then show "chunks (transform f x s) = chunks s @ [(Data, t)]"
    and "failure (transform f x s) = None"
    by simp_all
next
  assume a: "(columns (destructure options) = [] \<or>
        (\<exists>h. f (header_row (destructure options)) (header_options (destructure options)) = Inr h)) \<and>
       k < length xs \<and>
       (\<forall>j<k. \<exists>t. f [xs ! j] (item_options (destructure options)) = Inr t)"
  then have "k \<le> length (encoded f (item_options (destructure options)) xs)"
    by (intro encoded_reaches) simp_all
  with a have "map (\<lambda>x. ([x], item_options (destructure options)))
                 (take (Suc (length (encoded f (item_options (destructure options)) xs))) xs) ! k
               = ([xs ! k], item_options (destructure options))"
    by simp
  with a show "calls (pipeThrough f options xs) !
         ((if columns (destructure options) = [] then 0 else 1) + k) =
         ([xs ! k], \<lparr>s_separator = separator (destructure options), s_headers = False,
                     s_columns = Some (columns (destructure options)),
                     s_crlf = crlf (destructure options)\<rparr>)"
    by (auto simp: pipe_calls item_options_def)
next
  fix t
  assume a: "(columns (destructure options) = [] \<or>
        (\<exists>h. f (header_row (destructure options)) (header_options (destructure options)) = Inr h)) \<and>
       k < length xs \<and>
       (\<forall>j<k. \<exists>t. f [xs ! j] (item_options (destructure options)) = Inr t)"
    and t: "f [xs ! k] \<lparr>s_separator = separator (destructure options), s_headers = False,
                     s_columns = Some (columns (destructure options)),
                     s_crlf = crlf (destructure options)\<rparr> = Inr t"
  have "\<forall>j<Suc k. \<exists>t. f [xs ! j] (item_options (destructure options)) = Inr t"
    using a t by (auto simp: less_Suc_eq item_options_def)
  moreover have "Suc k \<le> length xs" using a by simp
  ultimately have "Suc k \<le> length (encoded f (item_options (destructure options)) xs)"
    by (rule encoded_reaches [rotated])
  then have k: "k < length (encoded f (item_options (destructure options)) xs)"
    by simp
  from encoded_nth [OF k] t
  have "encoded f (item_options (destructure options)) xs ! k = t"
    by (simp add: item_options_def)
  with k a show "chunks (pipeThrough f options xs) !
               ((if columns (destructure options) = [] then 0 else 1) + k) = (Data, t)"
    by (auto simp: pipe_chunks)
qed

theorem item_call_in_transform_witness:
  "calls (transform sample_stringify (ArrayItem [JsOther ''1'', JsString ''one''])
            (new_instance None)) =
     [([ArrayItem [JsOther ''1'', JsString ''one'']],
       \<lparr>s_separator = None, s_headers = False, s_columns = Some [], s_crlf = True\<rparr>)]
   \<and> chunks (transform sample_stringify (ArrayItem [JsOther ''1'', JsString ''one''])
            (new_instance None)) = [(Data, ''1,one'' @ [CHR 0x0D, CHR 0x0A])]
   \<and> calls (pipeThrough sample_stringify example_options example_records) ! 2 =
       ([RecordItem [(''id'', JsOther ''2''), (''name'', JsString ''two'')]],
        \<lparr>s_separator = None, s_headers = False, s_columns = Some [''id'', ''name''],
         s_crlf = True\<rparr>)
   \<and> chunks (pipeThrough sample_stringify example_options example_records) ! 2 =
       (Data, ''2,two'' @ [CHR 0x0D, CHR 0x0A])"
proof -
  have b: "columns (destructure example_options) = [''id'', ''name'']"
    "separator (destructure example_options) = None"
    "crlf (destructure example_options) = True"
    by (simp_all add: run_defs example_defs)
  have hdr: "\<exists>h. sample_stringify (header_row (destructure example_options))
      (header_options (destructure example_options)) = Inr h"
    by (simp add: run_defs example_defs)
  have len: "1 < length example_records"
    by (simp add: example_defs)
  have before: "\<forall>j<1. \<exists>t. sample_stringify [example_records ! j]
      (item_options (destructure example_options)) = Inr t"
    by (simp add: run_defs example_defs)
  have item: "sample_stringify [example_records ! 1]
      \<lparr>s_separator = None, s_headers = False, s_columns = Some [''id'', ''name''],
       s_crlf = True\<rparr> = Inr (''2,two'' @ [CHR 0x0D, CHR 0x0A])"
    by (simp add: run_defs example_defs)
  have first: "sample_stringify [ArrayItem [JsOther ''1'', JsString ''one'']]
      \<lparr>s_separator = None, s_headers = False, s_columns = Some [], s_crlf = True\<rparr> =
      Inr (''1,one'' @ [CHR 0x0D, CHR 0x0A])"
    by (simp add: run_defs)
  have fresh: "separator (destructure None) = None"
    "columns (destructure None) = []"
    "crlf (destructure None) = True"
    by (simp_all add: run_defs)
  have nth: "example_records ! Suc 0 =
      RecordItem [(''id'', JsOther ''2''), (''name'', JsString ''two'')]"
    by (simp add: example_defs)
  from item_call_in_transform [of sample_stringify "ArrayItem [JsOther ''1'', JsString ''one'']"
      "new_instance None" example_options 1 example_records]
    hdr len before item first
  show ?thesis
    by (simp add: b fresh nth numeral_2_eq_2)
qed

subsection \<open>Failure of the encoder\<close>

text \<open>
  C5. When the header call throws \<open>e\<close>, the stream is errored with \<open>e\<close> itself and no chunk
  is emitted, whatever the input. When the encoder first throws on item \<open>k\<close> (counted
  from 1, so the item \<open>xs ! (k - 1)\<close>), the stream is errored with that very \<open>e\<close>; the
  chunks emitted are exactly those of the run over the \<open>k - 1\<close> items before it, none of
  them taken back and none added for item \<open>k\<close> or a later one: \<open>k - 1\<close> chunks when
  \<open>columns\<close> is empty and \<open>k\<close> with the header. The errored stream stays as it is
  whatever is written to it afterwards.
\<close>

theorem encoder_failure_is_terminal:
  "(columns (destructure options) \<noteq> [] \<and>
    f (header_row (destructure options)) (header_options (destructure options)) = Inl e \<longrightarrow>
      failure (pipeThrough f options xs) = Some e \<and>
      chunks (pipeThrough f options xs) = [] \<and>
      write_all f ys (pipeThrough f options xs) = pipeThrough f options xs)
   \<and> ((columns (destructure options) = [] \<or>
        (\<exists>h. f (header_row (destructure options)) (header_options (destructure options)) = Inr h)) \<and>
       0 < k \<and> k \<le> length xs \<and>
       (\<forall>j<k - 1. \<exists>t. f [xs ! j] (item_options (destructure options)) = Inr t) \<and>
       f [xs ! (k - 1)] (item_options (destructure options)) = Inl e \<longrightarrow>
         failure (pipeThrough f options xs) = Some e \<and>
         length (chunks (pipeThrough f options xs)) =
           (if columns (destructure options) = [] then k - 1 else k) \<and>
         chunks (pipeThrough f options xs) = chunks (pipeThrough f options (take (k - 1) xs)) \<and>
         length (data_chunks (pipeThrough f options xs)) = k - 1 \<and>
         write_all f ys (pipeThrough f options xs) = pipeThrough f options xs)"
proof (intro conjI impI)
  assume a: "columns (destructure options) \<noteq> [] \<and>
    f (header_row (destructure options)) (header_options (destructure options)) = Inl e"
  then show h: "failure (pipeThrough f options xs) = Some e"
    by (simp add: pipe_failure)
  from a show "chunks (pipeThrough f options xs) = []"
    by (simp add: pipe_chunks)
  from h show "write_all f ys (pipeThrough f options xs) = pipeThrough f options xs"
    by (simp add: write_all_failed)
next
  assume a: "(columns (destructure options) = [] \<or>
        (\<exists>h. f (header_row (destructure options)) (header_options (destructure options)) = Inr h)) \<and>
       0 < k \<and> k \<le> length xs \<and>
       (\<forall>j<k - 1. \<exists>t. f [xs ! j] (item_options (destructure options)) = Inr t) \<and>
       f [xs ! (k - 1)] (item_options (destructure options)) = Inl e"
  then have len: "length (encoded f (item_options (destructure options)) xs) = k - 1"
    by (intro encoded_first_throw [where e = e]) simp_all
  from a have hdr: "\<not> (columns (destructure options) \<noteq> [] \<and>
         (\<exists>e. f (header_row (destructure options)) (header_options (destructure options)) = Inl e))"
    by auto
  from a have lt: "k - 1 < length xs"
    by arith
  from a len lt show h: "failure (pipeThrough f options xs) = Some e"
    by (simp add: pipe_failure hdr del: not_ex)
  from a len show "length (chunks (pipeThrough f options xs)) =
           (if columns (destructure options) = [] then k - 1 else k)"
    by (auto simp: pipe_chunks)
  have "encoded f (item_options (destructure options)) (take (k - 1) xs) =
          take (k - 1) (encoded f (item_options (destructure options)) xs)"
    using len by (intro encoded_take) simp
  with len have "encoded f (item_options (destructure options)) (take (k - 1) xs) =
          encoded f (item_options (destructure options)) xs"
    by simp
  then show "chunks (pipeThrough f options xs) = chunks (pipeThrough f options (take (k - 1) xs))"
    by (simp add: pipe_chunks split: sum.splits)
  from a len show "length (data_chunks (pipeThrough f options xs)) = k - 1"
    by (auto simp: pipe_data_chunks)
  from h show "write_all f ys (pipeThrough f options xs) = pipeThrough f options xs"
    by (simp add: write_all_failed)
qed

theorem encoder_failure_is_terminal_witness:
  "failure (pipeThrough sample_stringify quote_options example_records) =
     Some (Thrown ''bad separator'')
   \<and> chunks (pipeThrough sample_stringify quote_options example_records) = []
   \<and> failure (pipeThrough sample_stringify positional_options mixed_items) =
       Some (Thrown ''no columns'')
   \<and> length (chunks (pipeThrough sample_stringify positional_options mixed_items)) = 1
   \<and> chunks (pipeThrough sample_stringify positional_options mixed_items) =
       [(Data, ''1,one'' @ [CHR 0x0A])]
   \<and> write_all sample_stringify example_arrays
       (pipeThrough sample_stringify positional_options mixed_items) =
       pipeThrough sample_stringify positional_options mixed_items"
proof -
  have hdr: "columns (destructure quote_options) \<noteq> [] \<and>
      sample_stringify (header_row (destructure quote_options))
        (header_options (destructure quote_options)) = Inl (Thrown ''bad separator'')"
    by (simp add: run_defs example_defs)
  have item: "(columns (destructure positional_options) = [] \<or>
        (\<exists>h. sample_stringify (header_row (destructure positional_options))
               (header_options (destructure positional_options)) = Inr h)) \<and>
       0 < (2::nat) \<and> 2 \<le> length mixed_items \<and>
       (\<forall>j<2 - 1. \<exists>t. sample_stringify [mixed_items ! j]
                        (item_options (destructure positional_options)) = Inr t) \<and>
       sample_stringify [mixed_items ! (2 - 1)] (item_options (destructure positional_options)) =
         Inl (Thrown ''no columns'')"
    by (simp add: run_defs example_defs)
  have cols: "columns (destructure positional_options) = []"
    by (simp add: run_defs example_defs)
  have before: "chunks (pipeThrough sample_stringify positional_options (take (Suc 0) mixed_items)) =
      [(Data, ''1,one'' @ [CHR 0x0A])]"
    by (simp add: run_defs example_defs)
  from encoder_failure_is_terminal [of quote_options sample_stringify "Thrown ''bad separator''"
      example_records example_arrays 2] hdr
  have one: "failure (pipeThrough sample_stringify quote_options example_records) =
       Some (Thrown ''bad separator'')
     \<and> chunks (pipeThrough sample_stringify quote_options example_records) = []"
    by blast
  from encoder_failure_is_terminal [of positional_options sample_stringify "Thrown ''no columns''"
      mixed_items example_arrays 2] item
  have two: "failure (pipeThrough sample_stringify positional_options mixed_items) =
       Some (Thrown ''no columns'')
     \<and> length (chunks (pipeThrough sample_stringify positional_options mixed_items)) =
         (if columns (destructure positional_options) = [] then 2 - 1 else 2)
     \<and> chunks (pipeThrough sample_stringify positional_options mixed_items) =
         chunks (pipeThrough sample_stringify positional_options (take (2 - 1) mixed_items))
     \<and> write_all sample_stringify example_arrays
         (pipeThrough sample_stringify positional_options mixed_items) =
         pipeThrough sample_stringify positional_options mixed_items"
    by blast
  from one two show ?thesis
    by (simp add: cols before)
qed

subsection \<open>Order\<close>

text \<open>
  C6. The data chunk number \<open>k\<close> is the text that the encoder returns for the input item
  number \<open>k\<close>, for every data chunk that is emitted; the emitted chunks are the header
  chunk, if there is one, followed by the data chunks and nothing else; and when the
  stream ends without error every item has its data chunk.
\<close>

theorem order_preserved:
  "(\<forall>k<length (data_chunks (pipeThrough f options xs)).
      k < length xs \<and>
      f [xs ! k] (item_options (destructure options)) =
        Inr (data_chunks (pipeThrough f options xs) ! k))
   \<and> chunks (pipeThrough f options xs) =
       map (Pair Header) (header_chunks (pipeThrough f options xs)) @
       map (Pair Data) (data_chunks (pipeThrough f options xs))
   \<and> length (header_chunks (pipeThrough f options xs)) \<le> 1
   \<and> length (data_chunks (pipeThrough f options xs)) \<le> length xs
   \<and> (failure (pipeThrough f options xs) = None \<longrightarrow>
        length (data_chunks (pipeThrough f options xs)) = length xs)"
proof (intro conjI allI impI)
  fix k
  assume "k < length (data_chunks (pipeThrough f options xs))"
  then have "k < length xs \<and>
         f [xs ! k] (item_options (destructure options)) =
           Inr (data_chunks (pipeThrough f options xs) ! k)"
    by (rule data_chunk_nth)
  then show "k < length xs"
    and "f [xs ! k] (item_options (destructure options)) =
           Inr (data_chunks (pipeThrough f options xs) ! k)"
    by simp_all
next
  show "chunks (pipeThrough f options xs) =
       map (Pair Header) (header_chunks (pipeThrough f options xs)) @
       map (Pair Data) (data_chunks (pipeThrough f options xs))"
    by (simp add: pipe_header_chunks pipe_data_chunks pipe_chunks split: sum.splits)
next
  show "length (header_chunks (pipeThrough f options xs)) \<le> 1"
    by (simp add: pipe_header_chunks split: sum.splits)
next
  show "length (data_chunks (pipeThrough f options xs)) \<le> length xs"
    by (simp add: pipe_data_chunks encoded_length split: sum.splits)
next
  assume ok: "failure (pipeThrough f options xs) = None"
  have stops: "\<exists>e. f [xs ! length (encoded f (item_options (destructure options)) xs)]
                     (item_options (destructure options)) = Inl e"
    if "length (encoded f (item_options (destructure options)) xs) < length xs"
    using that by (rule encoded_stops)
  have "length (encoded f (item_options (destructure options)) xs) \<le> length xs"
    by (rule encoded_length)
  with ok stops show "length (data_chunks (pipeThrough f options xs)) = length xs"
    by (auto simp: pipe_failure pipe_data_chunks split: if_splits sum.splits)
qed

theorem order_preserved_witness:
  "data_chunks (pipeThrough sample_stringify positional_options example_arrays) =
     [''1,one'' @ [CHR 0x0A], ''2,two'' @ [CHR 0x0A]]
   \<and> sample_stringify [example_arrays ! 1] (item_options (destructure positional_options)) =
       Inr (''2,two'' @ [CHR 0x0A])
   \<and> chunks (pipeThrough sample_stringify positional_options example_arrays) =
       [(Data, ''1,one'' @ [CHR 0x0A]), (Data, ''2,two'' @ [CHR 0x0A])]
   \<and> header_chunks (pipeThrough sample_stringify positional_options example_arrays) = []"
proof -
  have run: "data_chunks (pipeThrough sample_stringify positional_options example_arrays) =
     [''1,one'' @ [CHR 0x0A], ''2,two'' @ [CHR 0x0A]]"
    "header_chunks (pipeThrough sample_stringify positional_options example_arrays) = []"
    by (simp_all add: run_defs example_defs)
  have ok: "failure (pipeThrough sample_stringify positional_options example_arrays) = None"
    by (simp add: run_defs example_defs)
  from order_preserved [of sample_stringify positional_options example_arrays] ok
  have "(\<forall>k<length (data_chunks (pipeThrough sample_stringify positional_options example_arrays)).
      sample_stringify [example_arrays ! k] (item_options (destructure positional_options)) =
        Inr (data_chunks (pipeThrough sample_stringify positional_options example_arrays) ! k))"
    and "chunks (pipeThrough sample_stringify positional_options example_arrays) =
       map (Pair Header) (header_chunks (pipeThrough sample_stringify positional_options example_arrays)) @
       map (Pair Data) (data_chunks (pipeThrough sample_stringify positional_options example_arrays))"
    by blast+
  with run show ?thesis
    by simp
qed

subsection \<open>Configuration\<close>

text \<open>
  C7. Two instances whose construction yields the same separator, the same columns and
  the same crlf (from the same options object or not), fed the same items through the
  same encoder, emit the same chunks; they also end in the same error state after the
  same calls.
\<close>

theorem same_configuration_same_chunks:
  assumes "separator (destructure options) = separator (destructure options')"
    and "columns (destructure options) = columns (destructure options')"
    and "crlf (destructure options) = crlf (destructure options')"
  shows "chunks (pipeThrough f options xs) = chunks (pipeThrough f options' xs)
         \<and> failure (pipeThrough f options xs) = failure (pipeThrough f options' xs)
         \<and> calls (pipeThrough f options xs) = calls (pipeThrough f options' xs)"
proof -
  from assms have "destructure options = destructure options'"
    by simp
  then have "pipeThrough f options xs = pipeThrough f options' xs"
    by (rule pipe_same_bindings)
  then show ?thesis by simp
qed

theorem same_configuration_same_chunks_witness:
  "chunks (pipeThrough sample_stringify None example_arrays) =
     chunks (pipeThrough sample_stringify
       (Some \<lparr>o_separator = None, o_columns = Some [], o_crlf = Some True\<rparr>) example_arrays)
   \<and> chunks (pipeThrough sample_stringify None example_arrays) =
       [(Data, ''1,one'' @ [CHR 0x0D, CHR 0x0A]), (Data, ''2,two'' @ [CHR 0x0D, CHR 0x0A])]"
proof -
  have a: "separator (destructure None) =
      separator (destructure (Some \<lparr>o_separator = None, o_columns = Some [], o_crlf = Some True\<rparr>))"
    by (simp add: destructure_def)
  have b: "columns (destructure None) =
      columns (destructure (Some \<lparr>o_separator = None, o_columns = Some [], o_crlf = Some True\<rparr>))"
    by (simp add: destructure_def)
  have c: "crlf (destructure None) =
      crlf (destructure (Some \<lparr>o_separator = None, o_columns = Some [], o_crlf = Some True\<rparr>))"
    by (simp add: destructure_def)
  have run: "chunks (pipeThrough sample_stringify None example_arrays) =
       [(Data, ''1,one'' @ [CHR 0x0D, CHR 0x0A]), (Data, ''2,two'' @ [CHR 0x0D, CHR 0x0A])]"
    by (simp add: run_defs example_defs)
  from same_configuration_same_chunks [OF a b c, of sample_stringify example_arrays] run
  show ?thesis by simp
qed

text \<open>
  C8. Neither \<open>start\<close> nor \<open>transform\<close> changes \<open>separator\<close>, \<open>columns\<close> or \<open>crlf\<close>, so after
  any input the instance still has the values taken from the options at construction;
  and every call of the encoder in the life of an instance carries that separator and
  that crlf, and those columns: as the \<open>columns\<close> option in a call for an item, as the
  one row of the batch in the header call (which has no \<open>columns\<close> option).
\<close>

theorem configuration_read_only:
  "separator (start f s) = separator s \<and> columns (start f s) = columns s
   \<and> crlf (start f s) = crlf s
   \<and> separator (transform f x s) = separator s \<and> columns (transform f x s) = columns s
   \<and> crlf (transform f x s) = crlf s
   \<and> separator (pipeThrough f options xs) = separator (destructure options)
   \<and> columns (pipeThrough f options xs) = columns (destructure options)
   \<and> crlf (pipeThrough f options xs) = crlf (destructure options)
   \<and> (\<forall>c\<in>set (calls (pipeThrough f options xs)).
        s_separator (snd c) = separator (destructure options) \<and>
        s_crlf (snd c) = crlf (destructure options) \<and>
        (s_columns (snd c) = Some (columns (destructure options)) \<or>
         s_columns (snd c) = None \<and>
         fst c = [ArrayItem (map JsString (columns (destructure options)))]))"
proof -
  have "s_separator (snd c) = separator (destructure options) \<and>
        s_crlf (snd c) = crlf (destructure options) \<and>
        (s_columns (snd c) = Some (columns (destructure options)) \<or>
         s_columns (snd c) = None \<and>
         fst c = [ArrayItem (map JsString (columns (destructure options)))])"
    if "c \<in> set (calls (pipeThrough f options xs))" for c
    using pipe_call_cases [OF that]
    by (auto simp: header_row_def header_options_def item_options_def)
  then show ?thesis by simp
qed

theorem configuration_read_only_witness:
  "columns (pipeThrough sample_stringify semicolon_options semicolon_records) = [''a'', ''b'']
   \<and> separator (pipeThrough sample_stringify semicolon_options semicolon_records) = Some '';''
   \<and> crlf (pipeThrough sample_stringify semicolon_options semicolon_records) = True
   \<and> calls (pipeThrough sample_stringify semicolon_options semicolon_records) =
       [([ArrayItem [JsString ''a'', JsString ''b'']],
         \<lparr>s_separator = Some '';'', s_headers = False, s_columns = None, s_crlf = True\<rparr>),
        ([RecordItem [(''a'', JsOther ''1''), (''b'', JsOther ''2'')]],
         \<lparr>s_separator = Some '';'', s_headers = False, s_columns = Some [''a'', ''b''],
          s_crlf = True\<rparr>)]
   \<and> s_separator (snd (last (calls
         (pipeThrough sample_stringify semicolon_options semicolon_records)))) = Some '';''
   \<and> s_crlf (snd (last (calls
         (pipeThrough sample_stringify semicolon_options semicolon_records)))) = True"
proof -
  have b: "columns (destructure semicolon_options) = [''a'', ''b'']"
    "separator (destructure semicolon_options) = Some '';''"
    "crlf (destructure semicolon_options) = True"
    by (simp_all add: run_defs example_defs)
  have run: "calls (pipeThrough sample_stringify semicolon_options semicolon_records) =
       [([ArrayItem [JsString ''a'', JsString ''b'']],
         \<lparr>s_separator = Some '';'', s_headers = False, s_columns = None, s_crlf = True\<rparr>),
        ([RecordItem [(''a'', JsOther ''1''), (''b'', JsOther ''2'')]],
         \<lparr>s_separator = Some '';'', s_headers = False, s_columns = Some [''a'', ''b''],
          s_crlf = True\<rparr>)]"
    by (simp add: run_defs example_defs)
  from configuration_read_only [of sample_stringify "new_instance semicolon_options"
      "hd semicolon_records" semicolon_options semicolon_records]
  have "columns (pipeThrough sample_stringify semicolon_options semicolon_records) =
          columns (destructure semicolon_options)
      \<and> separator (pipeThrough sample_stringify semicolon_options semicolon_records) =
          separator (destructure semicolon_options)
      \<and> crlf (pipeThrough sample_stringify semicolon_options semicolon_records) =
          crlf (destructure semicolon_options)
      \<and> (\<forall>c\<in>set (calls (pipeThrough sample_stringify semicolon_options semicolon_records)).
        s_separator (snd c) = separator (destructure semicolon_options) \<and>
        s_crlf (snd c) = crlf (destructure semicolon_options))"
    by blast
  moreover have "last (calls (pipeThrough sample_stringify semicolon_options semicolon_records))
      \<in> set (calls (pipeThrough sample_stringify semicolon_options semicolon_records))"
    by (simp add: run)
  ultimately show ?thesis
    using run by (simp add: b)
qed

text \<open>
  C9. Construction without an options object is construction with every option at its
  default, and an options object without \<open>columns\<close> is the same object with
  \<open>columns = []\<close>: the runs are equal. With \<open>columns\<close> omitted no header chunk is emitted
  and every call of the encoder is a call for an item with \<open>columns = []\<close>; with \<open>crlf\<close>
  omitted every call has \<open>crlf = true\<close>; with \<open>separator\<close> omitted every call has
  \<open>separator\<close> undefined.
\<close>

theorem omitted_options_take_defaults:
  "pipeThrough f None xs =
     pipeThrough f (Some \<lparr>o_separator = None, o_columns = Some [], o_crlf = Some True\<rparr>) xs
   \<and> (o_columns given = None \<longrightarrow>
        pipeThrough f (Some given) xs = pipeThrough f (Some (given\<lparr>o_columns := Some []\<rparr>)) xs)
   \<and> ((case options of None \<Rightarrow> True | Some g \<Rightarrow> o_columns g = None) \<longrightarrow>
        header_chunks (pipeThrough f options xs) = [] \<and>
        (\<forall>c\<in>set (calls (pipeThrough f options xs)).
           s_columns (snd c) = Some [] \<and> (\<exists>x\<in>set xs. fst c = [x])))
   \<and> ((case options of None \<Rightarrow> True | Some g \<Rightarrow> o_crlf g = None) \<longrightarrow>
        (\<forall>c\<in>set (calls (pipeThrough f options xs)). s_crlf (snd c) = True))
   \<and> ((case options of None \<Rightarrow> True | Some g \<Rightarrow> o_separator g = None) \<longrightarrow>
        (\<forall>c\<in>set (calls (pipeThrough f options xs)). s_separator (snd c) = None))"
proof (intro conjI impI ballI)
  show "pipeThrough f None xs =
     pipeThrough f (Some \<lparr>o_separator = None, o_columns = Some [], o_crlf = Some True\<rparr>) xs"
    by (rule pipe_same_bindings) (simp add: destructure_def)
next
  assume "o_columns given = None"
  then show "pipeThrough f (Some given) xs =
      pipeThrough f (Some (given\<lparr>o_columns := Some []\<rparr>)) xs"
    by (intro pipe_same_bindings) (simp add: destructure_def)
next
  assume "case options of None \<Rightarrow> True | Some g \<Rightarrow> o_columns g = None"
  then have cols: "columns (destructure options) = []"
    by (simp add: destructure_def split: option.splits)
  then show "header_chunks (pipeThrough f options xs) = []"
    by (simp add: pipe_header_chunks)
  fix c
  assume "c \<in> set (calls (pipeThrough f options xs))"
  from pipe_call_cases [OF this] cols
  show "s_columns (snd c) = Some []" and "\<exists>x\<in>set xs. fst c = [x]"
    by (auto simp: item_options_def)
next
  fix c
  assume "case options of None \<Rightarrow> True | Some g \<Rightarrow> o_crlf g = None"
  then have "crlf (destructure options) = True"
    by (simp add: destructure_def split: option.splits)
  moreover assume "c \<in> set (calls (pipeThrough f options xs))"
  note pipe_call_cases [OF this]
  ultimately show "s_crlf (snd c) = True"
    by (auto simp: item_options_def header_options_def)
next
  fix c
  assume "case options of None \<Rightarrow> True | Some g \<Rightarrow> o_separator g = None"
  then have "separator (destructure options) = None"
    by (simp add: destructure_def split: option.splits)
  moreover assume "c \<in> set (calls (pipeThrough f options xs))"
  note pipe_call_cases [OF this]
  ultimately show "s_separator (snd c) = None"
    by (auto simp: item_options_def header_options_def)
qed

theorem omitted_options_take_defaults_witness:
  "header_chunks (pipeThrough sample_stringify None example_arrays) = []
   \<and> calls (pipeThrough sample_stringify None example_arrays) =
       [([ArrayItem [JsOther ''1'', JsString ''one'']],
         \<lparr>s_separator = None, s_headers = False, s_columns = Some [], s_crlf = True\<rparr>),
        ([ArrayItem [JsOther ''2'', JsString ''two'']],
         \<lparr>s_separator = None, s_headers = False, s_columns = Some [], s_crlf = True\<rparr>)]
   \<and> s_columns (snd (last (calls (pipeThrough sample_stringify None example_arrays)))) = Some []
   \<and> s_crlf (snd (last (calls (pipeThrough sample_stringify None example_arrays)))) = True
   \<and> s_separator (snd (last (calls (pipeThrough sample_stringify None example_arrays)))) = None
   \<and> pipeThrough sample_stringify
        (Some \<lparr>o_separator = Some '';'', o_columns = None, o_crlf = None\<rparr>) example_arrays =
      pipeThrough sample_stringify
        (Some \<lparr>o_separator = Some '';'', o_columns = Some [], o_crlf = None\<rparr>) example_arrays"
proof -
  have omitted: "case None :: CsvStringifyStreamOptions option of
      None \<Rightarrow> True | Some g \<Rightarrow> o_columns g = None"
    "case None :: CsvStringifyStreamOptions option of
      None \<Rightarrow> True | Some g \<Rightarrow> o_crlf g = None"
    "case None :: CsvStringifyStreamOptions option of
      None \<Rightarrow> True | Some g \<Rightarrow> o_separator g = None"
    by simp_all
  have given: "o_columns \<lparr>o_separator = Some '';'', o_columns = None, o_crlf = None\<rparr> = None"
    by simp
  have run: "calls (pipeThrough sample_stringify None example_arrays) =
       [([ArrayItem [JsOther ''1'', JsString ''one'']],
         \<lparr>s_separator = None, s_headers = False, s_columns = Some [], s_crlf = True\<rparr>),
        ([ArrayItem [JsOther ''2'', JsString ''two'']],
         \<lparr>s_separator = None, s_headers = False, s_columns = Some [], s_crlf = True\<rparr>)]"
    by (simp add: run_defs example_defs)
  from omitted_options_take_defaults [of sample_stringify example_arrays
      "\<lparr>o_separator = Some '';'', o_columns = None, o_crlf = None\<rparr>" None] omitted given
  have "header_chunks (pipeThrough sample_stringify None example_arrays) = []"
    and "\<forall>c\<in>set (calls (pipeThrough sample_stringify None example_arrays)).
        s_columns (snd c) = Some []"
    and "\<forall>c\<in>set (calls (pipeThrough sample_stringify None example_arrays)). s_crlf (snd c) = True"
    and "\<forall>c\<in>set (calls (pipeThrough sample_stringify None example_arrays)).
        s_separator (snd c) = None"
    and "pipeThrough sample_stringify
        (Some \<lparr>o_separator = Some '';'', o_columns = None, o_crlf = None\<rparr>) example_arrays =
      pipeThrough sample_stringify
        (Some (\<lparr>o_separator = Some '';'', o_columns = None, o_crlf = None\<rparr>
                 \<lparr>o_columns := Some []\<rparr>)) example_arrays"
    by blast+
  moreover have "last (calls (pipeThrough sample_stringify None example_arrays))
      \<in> set (calls (pipeThrough sample_stringify None example_arrays))"
    by (simp add: run)
  ultimately show ?thesis
    using run by simp
qed

subsection \<open>No state between items\<close>

text \<open>
  C10 (as amended). The data chunk of an item depends on that item and on the
  configuration only: whenever two runs of equally configured instances both emit a data
  chunk for the same item, at whatever positions and among whatever other items, the two
  chunks are equal. The items after an item have no influence at all: an input that
  agrees up to and including item \<open>k\<close> emits the same data chunk number \<open>k\<close>.
  In \<open>transform\<close> itself, on streams that are not errored and have the same three
  bindings, what is enqueued for an item is the same whatever was enqueued or called
  before. And replacing any other item, earlier or later, by an item for which the
  encoder returns a text leaves the data chunk of item \<open>k\<close> emitted and unchanged.
\<close>

theorem item_chunk_of_item_only:
  fixes f :: "('a, 'b) stringify"
  shows "(i < length (data_chunks (pipeThrough f options xs)) \<and>
    j < length (data_chunks (pipeThrough f options ys)) \<and> xs ! i = ys ! j \<longrightarrow>
      data_chunks (pipeThrough f options xs) ! i = data_chunks (pipeThrough f options ys) ! j)
   \<and> (k < length (data_chunks (pipeThrough f options xs)) \<and>
       take (Suc k) zs = take (Suc k) xs \<longrightarrow>
        k < length (data_chunks (pipeThrough f options zs)) \<and>
        data_chunks (pipeThrough f options zs) ! k = data_chunks (pipeThrough f options xs) ! k)
   \<and> (failure s = None \<and> failure s' = None \<and> separator s = separator s' \<and>
       columns s = columns s' \<and> crlf s = crlf s' \<longrightarrow>
        drop (length (chunks s)) (chunks (transform f x s)) =
        drop (length (chunks s')) (chunks (transform f x s')))
   \<and> (k < length (data_chunks (pipeThrough f options xs)) \<and> m \<noteq> k \<and>
       (\<exists>t. f [y] (item_options (destructure options)) = Inr t) \<longrightarrow>
        k < length (data_chunks (pipeThrough f options (xs[m := y]))) \<and>
        data_chunks (pipeThrough f options (xs[m := y])) ! k =
          data_chunks (pipeThrough f options xs) ! k)"
proof (intro conjI impI)
  assume a: "i < length (data_chunks (pipeThrough f options xs)) \<and>
    j < length (data_chunks (pipeThrough f options ys)) \<and> xs ! i = ys ! j"
  then have i: "i < length (data_chunks (pipeThrough f options xs))"
    and j: "j < length (data_chunks (pipeThrough f options ys))"
    and same: "xs ! i = ys ! j"
    by simp_all
  from data_chunk_nth [OF i]
  have "f [xs ! i] (item_options (destructure options)) =
      Inr (data_chunks (pipeThrough f options xs) ! i)"
    by (rule conjunct2)
  moreover from data_chunk_nth [OF j]
  have "f [ys ! j] (item_options (destructure options)) =
      Inr (data_chunks (pipeThrough f options ys) ! j)"
    by (rule conjunct2)
  ultimately have "Inr (data_chunks (pipeThrough f options xs) ! i) =
      (Inr (data_chunks (pipeThrough f options ys) ! j) :: 'b thrown + string)"
    using same by simp
  then show "data_chunks (pipeThrough f options xs) ! i =
      data_chunks (pipeThrough f options ys) ! j"
    by simp
next
  assume a: "k < length (data_chunks (pipeThrough f options xs)) \<and>
       take (Suc k) zs = take (Suc k) xs"
  then have k: "k < length (data_chunks (pipeThrough f options xs))"
    and same: "take (Suc k) zs = take (Suc k) xs"
    by simp_all
  from k have hdr: "columns (destructure options) = [] \<or>
      (\<exists>h. f (header_row (destructure options)) (header_options (destructure options)) = Inr h)"
    by (auto simp: pipe_data_chunks split: if_splits sum.splits)
  then have dat: "data_chunks (pipeThrough f options us) =
      encoded f (item_options (destructure options)) us" for us
    by (auto simp: pipe_data_chunks)
  from data_chunk_nth [OF k] have kx: "k < length xs"
    by (rule conjunct1)
  have "length (take (Suc k) zs) = length (take (Suc k) xs)"
    using same by simp
  with kx have kz: "Suc k \<le> length zs"
    by simp
  have nth: "zs ! j = xs ! j" if "j < Suc k" for j
  proof -
    from that have "zs ! j = take (Suc k) zs ! j"
      by simp
    also have "\<dots> = take (Suc k) xs ! j"
      by (simp only: same)
    also from that have "\<dots> = xs ! j"
      by simp
    finally show ?thesis .
  qed
  have "\<forall>j<Suc k. \<exists>t. f [zs ! j] (item_options (destructure options)) = Inr t"
  proof (intro allI impI)
    fix j assume j: "j < Suc k"
    with k have "j < length (encoded f (item_options (destructure options)) xs)"
      by (simp add: dat)
    then have "f [xs ! j] (item_options (destructure options)) =
        Inr (encoded f (item_options (destructure options)) xs ! j)"
      by (rule encoded_nth)
    with nth [OF j] show "\<exists>t. f [zs ! j] (item_options (destructure options)) = Inr t"
      by simp
  qed
  with kz have "Suc k \<le> length (encoded f (item_options (destructure options)) zs)"
    by (rule encoded_reaches)
  then show kz': "k < length (data_chunks (pipeThrough f options zs))"
    by (simp add: dat)
  from data_chunk_nth [OF kz']
  have "f [zs ! k] (item_options (destructure options)) =
      Inr (data_chunks (pipeThrough f options zs) ! k)"
    by (rule conjunct2)
  moreover from data_chunk_nth [OF k]
  have "f [xs ! k] (item_options (destructure options)) =
      Inr (data_chunks (pipeThrough f options xs) ! k)"
    by (rule conjunct2)
  moreover have "zs ! k = xs ! k"
    by (rule nth) simp
  ultimately have "Inr (data_chunks (pipeThrough f options zs) ! k) =
      (Inr (data_chunks (pipeThrough f options xs) ! k) :: 'b thrown + string)"
    by simp
  then show "data_chunks (pipeThrough f options zs) ! k =
      data_chunks (pipeThrough f options xs) ! k"
    by simp
next
  assume a: "failure s = None \<and> failure s' = None \<and> separator s = separator s' \<and>
       columns s = columns s' \<and> crlf s = crlf s'"
  then have "item_options s = item_options s'"
    by (simp add: item_options_def)
  with a show "drop (length (chunks s)) (chunks (transform f x s)) =
        drop (length (chunks s')) (chunks (transform f x s'))"
    by (simp add: transform_chunks)
next
  assume a: "k < length (data_chunks (pipeThrough f options xs)) \<and> m \<noteq> k \<and>
       (\<exists>t. f [y] (item_options (destructure options)) = Inr t)"
  then have k: "k < length (data_chunks (pipeThrough f options xs))"
    and other: "m \<noteq> k"
    and accepted: "\<exists>t. f [y] (item_options (destructure options)) = Inr t"
    by simp_all
  from k have hdr: "columns (destructure options) = [] \<or>
      (\<exists>h. f (header_row (destructure options)) (header_options (destructure options)) = Inr h)"
    by (auto simp: pipe_data_chunks split: if_splits sum.splits)
  then have dat: "data_chunks (pipeThrough f options us) =
      encoded f (item_options (destructure options)) us" for us
    by (auto simp: pipe_data_chunks)
  from data_chunk_nth [OF k] have kx: "k < length xs"
    by (rule conjunct1)
  then have kz: "Suc k \<le> length (xs[m := y])"
    by simp
  have "\<forall>i<Suc k. \<exists>t. f [xs[m := y] ! i] (item_options (destructure options)) = Inr t"
  proof (intro allI impI)
    fix i assume i: "i < Suc k"
    with k have "i < length (encoded f (item_options (destructure options)) xs)"
      by (simp add: dat)
    then have "f [xs ! i] (item_options (destructure options)) =
        Inr (encoded f (item_options (destructure options)) xs ! i)"
      by (rule encoded_nth)
    moreover from i kx have "xs[m := y] ! i = (if m = i then y else xs ! i)"
      by (simp add: nth_list_update)
    ultimately show "\<exists>t. f [xs[m := y] ! i] (item_options (destructure options)) = Inr t"
      using accepted by simp
  qed
  with kz have "Suc k \<le> length (encoded f (item_options (destructure options)) (xs[m := y]))"
    by (rule encoded_reaches)
  then show kz': "k < length (data_chunks (pipeThrough f options (xs[m := y])))"
    by (simp add: dat)
  from data_chunk_nth [OF kz']
  have "f [xs[m := y] ! k] (item_options (destructure options)) =
      Inr (data_chunks (pipeThrough f options (xs[m := y])) ! k)"
    by (rule conjunct2)
  moreover from data_chunk_nth [OF k]
  have "f [xs ! k] (item_options (destructure options)) =
      Inr (data_chunks (pipeThrough f options xs) ! k)"
    by (rule conjunct2)
  moreover from other have "xs[m := y] ! k = xs ! k"
    by simp
  ultimately have "Inr (data_chunks (pipeThrough f options (xs[m := y])) ! k) =
      (Inr (data_chunks (pipeThrough f options xs) ! k) :: 'b thrown + string)"
    by simp
  then show "data_chunks (pipeThrough f options (xs[m := y])) ! k =
      data_chunks (pipeThrough f options xs) ! k"
    by simp
qed

theorem item_chunk_of_item_only_witness:
  "data_chunks (pipeThrough sample_stringify positional_options mixed_items) ! 0 =
     data_chunks (pipeThrough sample_stringify positional_options (rev example_arrays)) ! 1
   \<and> data_chunks (pipeThrough sample_stringify positional_options mixed_items) ! 0 =
       ''1,one'' @ [CHR 0x0A]
   \<and> data_chunks (pipeThrough sample_stringify positional_options (take 1 example_arrays)) ! 0 =
       data_chunks (pipeThrough sample_stringify positional_options mixed_items) ! 0
   \<and> drop (length (chunks (pipeThrough sample_stringify positional_options example_arrays)))
        (chunks (transform sample_stringify (ArrayItem [JsOther ''3'', JsString ''three''])
           (pipeThrough sample_stringify positional_options example_arrays))) =
      drop (length (chunks (new_instance positional_options :: (string, string) csv_stream)))
        (chunks (transform sample_stringify (ArrayItem [JsOther ''3'', JsString ''three''])
           (new_instance positional_options)))
   \<and> 0 < length (data_chunks (pipeThrough sample_stringify positional_options
         (mixed_items[1 := ArrayItem [JsOther ''2'', JsString ''two'']])))
   \<and> data_chunks (pipeThrough sample_stringify positional_options
         (mixed_items[1 := ArrayItem [JsOther ''2'', JsString ''two'']])) ! 0 =
       ''1,one'' @ [CHR 0x0A]"
proof -
  have pos: "0 < length (data_chunks (pipeThrough sample_stringify positional_options mixed_items)) \<and>
    1 < length (data_chunks (pipeThrough sample_stringify positional_options (rev example_arrays))) \<and>
    mixed_items ! 0 = rev example_arrays ! 1"
    by (simp add: run_defs example_defs)
  have st: "failure (pipeThrough sample_stringify positional_options example_arrays) = None \<and>
    failure (new_instance positional_options :: (string, string) csv_stream) = None \<and>
    separator (pipeThrough sample_stringify positional_options example_arrays) =
      separator (new_instance positional_options :: (string, string) csv_stream) \<and>
    columns (pipeThrough sample_stringify positional_options example_arrays) =
      columns (new_instance positional_options :: (string, string) csv_stream) \<and>
    crlf (pipeThrough sample_stringify positional_options example_arrays) =
      crlf (new_instance positional_options :: (string, string) csv_stream)"
    by (simp add: run_defs example_defs)
  have run: "data_chunks (pipeThrough sample_stringify positional_options mixed_items) ! 0 =
       ''1,one'' @ [CHR 0x0A]"
    by (simp add: run_defs example_defs)
  have later: "0 < length (data_chunks (pipeThrough sample_stringify positional_options mixed_items)) \<and>
    take (Suc 0) (take 1 example_arrays) = take (Suc 0) mixed_items"
    by (simp add: run_defs example_defs)
  have repl: "0 < length (data_chunks (pipeThrough sample_stringify positional_options mixed_items)) \<and>
    (1::nat) \<noteq> 0 \<and>
    (\<exists>t. sample_stringify [ArrayItem [JsOther ''2'', JsString ''two'']]
           (item_options (destructure positional_options)) = Inr t)"
    by (simp add: run_defs example_defs)
  from item_chunk_of_item_only [of 0 sample_stringify positional_options mixed_items
      1 "rev example_arrays" 0 "take 1 example_arrays"
      "pipeThrough sample_stringify positional_options example_arrays"
      "new_instance positional_options" "ArrayItem [JsOther ''3'', JsString ''three'']"
      1 "ArrayItem [JsOther ''2'', JsString ''two'']"]
    pos st run later repl
  show ?thesis
    by simp
qed

text \<open>
  C10 as stated fails for an earlier item: when the item in second place is replaced by
  one that the encoder refuses, the stream is errored there, the third item is never
  handed to \<open>transform\<close>, and its data chunk, emitted before the replacement, is not
  emitted any more.
\<close>

theorem refused_earlier_item_counterexample:
  "item_chunk (pipeThrough sample_stringify positional_options
      (three_arrays[1 := RecordItem [(''id'', JsOther ''2''), (''name'', JsString ''two'')]])) 2 \<noteq>
     item_chunk (pipeThrough sample_stringify positional_options three_arrays) 2
   \<and> item_chunk (pipeThrough sample_stringify positional_options three_arrays) 2 =
     Some (''3,three'' @ [CHR 0x0A])
   \<and> item_chunk (pipeThrough sample_stringify positional_options
        (three_arrays[1 := RecordItem [(''id'', JsOther ''2''), (''name'', JsString ''two'')]])) 2 =
       None
   \<and> three_arrays[1 := RecordItem [(''id'', JsOther ''2''), (''name'', JsString ''two'')]] ! 2 =
       three_arrays ! 2"
  by (simp add: run_defs example_defs)

end
